theory Spec2Isabelle
  imports Main "HOL-Library.Word"
begin

section \<open>Data model\<close>

text \<open>
  A JavaScript string is a sequence of UTF-16 code units. Identifiers, names, e-mail
  addresses and phone numbers are such strings. A \<open>Date\<close> is its number of
  milliseconds since the epoch; the serialisation of dates on the wire is not modelled.
\<close>

type_synonym jschar = "16 word"
type_synonym jsstring = "jschar list"
type_synonym ident = jsstring
type_synonym date = nat

text \<open>Embedding of an ASCII literal, to write concrete inputs legibly.\<close>

definition js :: "string \<Rightarrow> jsstring" where
  "js s = map (\<lambda>c. of_nat (of_char c)) s"

text \<open>
  \<open>ContactDraft = Pick<Contact, "name" | "email" | "phone">\<close> and \<open>Contact\<close>
  (ContactsContext.tsx, and \<open>type Contact\<close> of the GraphQL schema).
\<close>

record ContactDraft =
  name :: jsstring
  email :: jsstring
  phone :: jsstring

record Contact = ContactDraft +
  contact_id :: ident
  createdAt :: date
  updatedAt :: date

datatype error =
    ContactNotFound   \<comment> \<open>\<open>new Error("Contact not found")\<close>\<close>
  | DuplicateKey      \<comment> \<open>the store refuses a second record with a live id\<close>
  | NetworkError      \<comment> \<open>the transport between client and resolvers failed\<close>

section \<open>The contact record store\<close>

text \<open>
  The collection of persisted contact documents, in the store's own order.
\<close>

type_synonym collection = "Contact list"

text \<open>
  The update document \<open>{ name, email, phone, updatedAt }\<close> handed to the store by
  \<open>updateContact\<close>: a key whose value is \<open>undefined\<close> is \<open>None\<close>.
  (The client's \<open>ContactDraft\<close> carries strings only; a GraphQL \<open>null\<close>
  argument is outside this model.)
\<close>

record update_doc =
  set_name :: "jsstring option"
  set_email :: "jsstring option"
  set_phone :: "jsstring option"
  set_updatedAt :: "date option"

definition ids :: "collection \<Rightarrow> ident set" where
  "ids s = contact_id ` set s"

text \<open>
  Modelled from the spec: the \<open>Contact\<close> model (\<open>models/Contact.js\<close>) and the
  document store behind it are not among the sources. \<open>find\<close> is the spec's
  "all contacts, no pagination, no ordering guarantee beyond store default".
\<close>

definition find_all :: "collection \<Rightarrow> Contact list" where
  "find_all s = s"

text \<open>
  Modelled from the spec: \<open>Contact.findById\<close> of the missing model: "single lookup;
  absent when id does not match any record".
\<close>

definition findById :: "ident \<Rightarrow> collection \<Rightarrow> Contact option" where
  "findById i s = List.find (\<lambda>c. contact_id c = i) s"

text \<open>
  Modelled from the spec: \<open>new Contact({name, email, phone})\<close> followed by
  \<open>save()\<close> on the missing model: "created by the create operation (store assigns
  id, sets both timestamps to now)", with "id is unique across all live records" kept by
  refusing an identifier that is already live. The identifier \<open>oid\<close> the store
  generates and the clock reading \<open>now\<close> are inputs.
\<close>

definition new_Contact :: "ident \<Rightarrow> jsstring \<Rightarrow> jsstring \<Rightarrow> jsstring \<Rightarrow> Contact" where
  "new_Contact oid n e p =
     \<lparr>name = n, email = e, phone = p, contact_id = oid, createdAt = 0, updatedAt = 0\<rparr>"

definition save :: "date \<Rightarrow> Contact \<Rightarrow> collection \<Rightarrow> (error + Contact) \<times> collection" where
  "save now c s =
     (if contact_id c \<in> ids s then (Inl DuplicateKey, s)
      else (let c' = c\<lparr>createdAt := now, updatedAt := now\<rparr> in (Inr c', s @ [c'])))"

text \<open>
  Modelled from the spec: the effect of an update document on one stored record:
  "persists provided fields"; a key that is \<open>undefined\<close> is not written.
\<close>

definition applyUpdate :: "update_doc \<Rightarrow> Contact \<Rightarrow> Contact" where
  "applyUpdate u c =
     c\<lparr>name := (case set_name u of None \<Rightarrow> name c | Some v \<Rightarrow> v),
       email := (case set_email u of None \<Rightarrow> email c | Some v \<Rightarrow> v),
       phone := (case set_phone u of None \<Rightarrow> phone c | Some v \<Rightarrow> v),
       updatedAt := (case set_updatedAt u of None \<Rightarrow> updatedAt c | Some v \<Rightarrow> v)\<rparr>"

text \<open>
  Modelled from the spec: \<open>Contact.findByIdAndUpdate(id, update, { new })\<close> of the
  missing model: "mutated in place by the update operation". The record with the given
  id is overwritten where it stands; the result is the record after the update when
  \<open>new\<close> is set, the record before it otherwise, and absent when no record has the
  id (nothing is inserted).
\<close>

fun findByIdAndUpdate ::
  "ident \<Rightarrow> update_doc \<Rightarrow> bool \<Rightarrow> collection \<Rightarrow> Contact option \<times> collection" where
  "findByIdAndUpdate i u new [] = (None, [])"
| "findByIdAndUpdate i u new (c # cs) =
     (if contact_id c = i
      then (Some (if new then applyUpdate u c else c), applyUpdate u c # cs)
      else (case findByIdAndUpdate i u new cs of (r, cs') \<Rightarrow> (r, c # cs')))"

text \<open>
  Modelled from the spec: \<open>Contact.findByIdAndDelete(id)\<close> of the missing model:
  "permanently removed by the delete operation (no tombstone, no recovery)". The result
  is the removed record, absent when no record has the id.
\<close>

fun findByIdAndDelete :: "ident \<Rightarrow> collection \<Rightarrow> Contact option \<times> collection" where
  "findByIdAndDelete i [] = (None, [])"
| "findByIdAndDelete i (c # cs) =
     (if contact_id c = i then (Some c, cs)
      else (case findByIdAndDelete i cs of (r, cs') \<Rightarrow> (r, c # cs')))"

section \<open>The resolvers\<close>

text \<open>
  Each resolver is a function of the store; a thrown exception is \<open>Inl\<close>. The
  queries leave the store as it is, the mutations return the store they leave.
\<close>

definition getContacts :: "collection \<Rightarrow> error + Contact list" where
  "getContacts s = Inr (find_all s)"

definition getContact :: "ident \<Rightarrow> collection \<Rightarrow> error + Contact option" where
  "getContact i s = Inr (findById i s)"

definition createContact ::
  "ident \<Rightarrow> date \<Rightarrow> jsstring \<Rightarrow> jsstring \<Rightarrow> jsstring \<Rightarrow> collection
     \<Rightarrow> (error + Contact) \<times> collection" where
  "createContact oid now n e p s =
     (let contact = new_Contact oid n e p in save now contact s)"

definition updateContact ::
  "date \<Rightarrow> ident \<Rightarrow> jsstring option \<Rightarrow> jsstring option \<Rightarrow> jsstring option \<Rightarrow> collection
     \<Rightarrow> (error + Contact) \<times> collection" where
  "updateContact now i n e p s =
     (case findByIdAndUpdate i
             \<lparr>set_name = n, set_email = e, set_phone = p, set_updatedAt = Some now\<rparr> True s of
        (None, s') \<Rightarrow> (Inl ContactNotFound, s')
      | (Some contact, s') \<Rightarrow> (Inr contact, s'))"

definition deleteContact :: "ident \<Rightarrow> collection \<Rightarrow> (error + bool) \<times> collection" where
  "deleteContact i s =
     (case findByIdAndDelete i s of (result, s') \<Rightarrow> (Inr (result \<noteq> None), s'))"

section \<open>The client data layer\<close>

text \<open>
  How one request fares between the client and the resolvers: it is answered, it never
  arrives, or it is carried out and its answer is lost. The client sees a failure in both
  of the last two cases.
\<close>

datatype link = Delivered | LostRequest | LostResponse

fun transport ::
  "link \<Rightarrow> (collection \<Rightarrow> (error + 'a) \<times> collection) \<Rightarrow> collection
     \<Rightarrow> (error + 'a) \<times> collection" where
  "transport Delivered f s = f s"
| "transport LostRequest f s = (Inl NetworkError, s)"
| "transport LostResponse f s = (Inl NetworkError, snd (f s))"

datatype request =
    GetContactsReq
  | CreateContactReq ContactDraft
  | UpdateContactReq ident ContactDraft
  | DeleteContactReq ident

text \<open>
  What \<open>ContactsProvider\<close> sees and acts on: the store behind the resolvers, the
  \<open>data\<close> of the list query (absent until a fetch has succeeded), and the requests
  issued so far, oldest first.
\<close>

record world =
  server :: collection
  data :: "Contact list option"
  sent :: "request list"

text \<open>
  The client's cache is an \<open>InMemoryCache\<close> with its default settings
  (lib/apolloClient.ts): objects are stored once per type and id. A \<open>Contact\<close> that
  a mutation returns therefore overwrites the cached \<open>Contact\<close> with its id, with
  all the fields the mutations select; the list a query holds gains and loses no entry
  by it.
\<close>

definition writeContact :: "Contact \<Rightarrow> Contact list option \<Rightarrow> Contact list option" where
  "writeContact c d =
     map_option (map (\<lambda>x. if contact_id x = contact_id c then c else x)) d"

text \<open>
  The functions of the query and mutation hooks. A request that fails rejects
  (\<open>Inl\<close>) and delivers no data; \<open>refetch\<close> replaces \<open>data\<close> by the list it
  receives. The identifier and clock reading the server will use are inputs.
\<close>

definition refetch :: "link \<Rightarrow> world \<Rightarrow> (error + unit) \<times> world" where
  "refetch l w =
     (let w' = w\<lparr>sent := sent w @ [GetContactsReq]\<rparr> in
      case transport l (\<lambda>s. (getContacts s, s)) (server w) of
        (Inl e, s') \<Rightarrow> (Inl e, w'\<lparr>server := s'\<rparr>)
      | (Inr cs, s') \<Rightarrow> (Inr (), w'\<lparr>server := s', data := Some cs\<rparr>))"

definition createContact_mutation ::
  "link \<Rightarrow> ident \<Rightarrow> date \<Rightarrow> ContactDraft \<Rightarrow> world \<Rightarrow> (error + Contact option) \<times> world" where
  "createContact_mutation l oid now variables w =
     (let w' = w\<lparr>sent := sent w @ [CreateContactReq variables]\<rparr> in
      case transport l
             (createContact oid now (name variables) (email variables) (phone variables))
             (server w) of
        (Inl e, s') \<Rightarrow> (Inl e, w'\<lparr>server := s'\<rparr>)
      | (Inr c, s') \<Rightarrow> (Inr (Some c), w'\<lparr>server := s', data := writeContact c (data w)\<rparr>))"

definition updateContactMutation ::
  "link \<Rightarrow> date \<Rightarrow> ident \<Rightarrow> ContactDraft \<Rightarrow> world \<Rightarrow> (error + Contact option) \<times> world" where
  "updateContactMutation l now i variables w =
     (let w' = w\<lparr>sent := sent w @ [UpdateContactReq i variables]\<rparr> in
      case transport l
             (updateContact now i (Some (name variables)) (Some (email variables))
                (Some (phone variables)))
             (server w) of
        (Inl e, s') \<Rightarrow> (Inl e, w'\<lparr>server := s'\<rparr>)
      | (Inr c, s') \<Rightarrow> (Inr (Some c), w'\<lparr>server := s', data := writeContact c (data w)\<rparr>))"

definition deleteContactMutation ::
  "link \<Rightarrow> ident \<Rightarrow> world \<Rightarrow> (error + bool option) \<times> world" where
  "deleteContactMutation l i w =
     (let w' = w\<lparr>sent := sent w @ [DeleteContactReq i]\<rparr> in
      case transport l (deleteContact i) (server w) of
        (Inl e, s') \<Rightarrow> (Inl e, w'\<lparr>server := s'\<rparr>)
      | (Inr b, s') \<Rightarrow> (Inr (Some b), w'\<lparr>server := s'\<rparr>))"

text \<open>
  The operations of the context (ContactsContext.tsx). \<open>ml\<close> is the fate of the
  mutation's request, \<open>ql\<close> that of the list fetch that follows it. An \<open>await\<close>
  on a rejected promise leaves the function at once with that failure.
\<close>

definition refreshContacts :: "link \<Rightarrow> world \<Rightarrow> (error + unit) \<times> world" where
  "refreshContacts ql w = refetch ql w"

definition addContact ::
  "link \<Rightarrow> link \<Rightarrow> ident \<Rightarrow> date \<Rightarrow> ContactDraft \<Rightarrow> world \<Rightarrow> (error + ident option) \<times> world" where
  "addContact ml ql oid now draft w =
     (case createContact_mutation ml oid now
             \<lparr>name = name draft, email = email draft, phone = phone draft\<rparr> w of
        (Inl e, w1) \<Rightarrow> (Inl e, w1)
      | (Inr response_data, w1) \<Rightarrow>
          (case refreshContacts ql w1 of
             (Inl e, w2) \<Rightarrow> (Inl e, w2)
           | (Inr _, w2) \<Rightarrow> (Inr (map_option contact_id response_data), w2)))"

definition updateContact_ctx ::
  "link \<Rightarrow> link \<Rightarrow> date \<Rightarrow> ident \<Rightarrow> ContactDraft \<Rightarrow> world \<Rightarrow> (error + unit) \<times> world" where
  "updateContact_ctx ml ql now i draft w =
     (case updateContactMutation ml now i
             \<lparr>name = name draft, email = email draft, phone = phone draft\<rparr> w of
        (Inl e, w1) \<Rightarrow> (Inl e, w1)
      | (Inr _, w1) \<Rightarrow> refreshContacts ql w1)"

definition deleteContact_ctx ::
  "link \<Rightarrow> link \<Rightarrow> ident \<Rightarrow> world \<Rightarrow> (error + unit) \<times> world" where
  "deleteContact_ctx ml ql i w =
     (case deleteContactMutation ml i w of
        (Inl e, w1) \<Rightarrow> (Inl e, w1)
      | (Inr _, w1) \<Rightarrow> refreshContacts ql w1)"

text \<open>\<open>data?.getContacts ?? []\<close> and \<open>getContactById\<close>.\<close>

definition contacts :: "world \<Rightarrow> Contact list" where
  "contacts w = (case data w of None \<Rightarrow> [] | Some cs \<Rightarrow> cs)"

definition getContactById :: "ident \<Rightarrow> world \<Rightarrow> Contact option" where
  "getContactById i w = List.find (\<lambda>contact. contact_id contact = i) (contacts w)"

section \<open>Strings: trimming and the e-mail pattern\<close>

text \<open>
  The code units that \<open>String.prototype.trim\<close> strips and that \<open>\s\<close> matches
  (ECMAScript WhiteSpace and LineTerminator): tab, line feed, vertical tab, form feed,
  carriage return, space, U+00A0, U+1680, U+2000 to U+200A, U+2028, U+2029, U+202F,
  U+205F, U+3000 and U+FEFF.
\<close>

definition isWhiteSpace :: "jschar \<Rightarrow> bool" where
  "isWhiteSpace c =
     (let n = unat c in
        (9 \<le> n \<and> n \<le> 13) \<or> n = 32 \<or> n = 160 \<or> n = 5760 \<or> (8192 \<le> n \<and> n \<le> 8202) \<or>
        n = 8232 \<or> n = 8233 \<or> n = 8239 \<or> n = 8287 \<or> n = 12288 \<or> n = 65279)"

definition trim :: "jsstring \<Rightarrow> jsstring" where
  "trim s = rev (dropWhile isWhiteSpace (rev (dropWhile isWhiteSpace s)))"

text \<open>\<open>xs[i]\<close>: \<open>undefined\<close> out of range.\<close>

definition index_opt :: "'a list \<Rightarrow> nat \<Rightarrow> 'a option" where
  "index_opt xs i = (if i < length xs then Some (xs ! i) else None)"

text \<open>\<open>s.charCodeAt(i)\<close>: \<open>NaN\<close> (here \<open>None\<close>) out of range.\<close>

definition charCodeAt :: "jsstring \<Rightarrow> nat \<Rightarrow> nat option" where
  "charCodeAt s i = (if i < length s then Some (unat (s ! i)) else None)"

text \<open>
  Regular expressions over code units, as far as the pattern of the form needs them,
  matched by derivatives. \<open>NotSpace\<close> is \<open>\S\<close>.
\<close>

datatype regex =
    Zero
  | One
  | Chr jschar
  | NotSpace
  | Alt regex regex
  | Seq regex regex
  | Star regex

definition Plus_rx :: "regex \<Rightarrow> regex" where
  "Plus_rx r = Seq r (Star r)"

fun nullable :: "regex \<Rightarrow> bool" where
  "nullable Zero = False"
| "nullable One = True"
| "nullable (Chr c) = False"
| "nullable NotSpace = False"
| "nullable (Alt r s) = (nullable r \<or> nullable s)"
| "nullable (Seq r s) = (nullable r \<and> nullable s)"
| "nullable (Star r) = True"

fun deriv :: "jschar \<Rightarrow> regex \<Rightarrow> regex" where
  "deriv a Zero = Zero"
| "deriv a One = Zero"
| "deriv a (Chr c) = (if a = c then One else Zero)"
| "deriv a NotSpace = (if isWhiteSpace a then Zero else One)"
| "deriv a (Alt r s) = Alt (deriv a r) (deriv a s)"
| "deriv a (Seq r s) =
     (if nullable r then Alt (Seq (deriv a r) s) (deriv a s) else Seq (deriv a r) s)"
| "deriv a (Star r) = Seq (deriv a r) (Star r)"

fun matches :: "regex \<Rightarrow> jsstring \<Rightarrow> bool" where
  "matches r [] = nullable r"
| "matches r (a # as) = matches (deriv a r) as"

text \<open>
  What it means for a string to match a regular expression, as a relation; the matcher
  above is shown to decide it.
\<close>

inductive accepts :: "regex \<Rightarrow> jsstring \<Rightarrow> bool" where
  acc_One: "accepts One []"
| acc_Chr: "accepts (Chr c) [c]"
| acc_NotSpace: "\<not> isWhiteSpace a \<Longrightarrow> accepts NotSpace [a]"
| acc_AltL: "accepts r w \<Longrightarrow> accepts (Alt r s) w"
| acc_AltR: "accepts s w \<Longrightarrow> accepts (Alt r s) w"
| acc_Seq: "accepts r u \<Longrightarrow> accepts s v \<Longrightarrow> accepts (Seq r s) (u @ v)"
| acc_StarNil: "accepts (Star r) []"
| acc_StarStep: "accepts r u \<Longrightarrow> accepts (Star r) v \<Longrightarrow> accepts (Star r) (u @ v)"

text \<open>\<open>/^\S+@\S+\.\S+$/\<close>; between \<open>^\<close> and \<open>$\<close> the whole string is matched.\<close>

definition emailPattern :: regex where
  "emailPattern =
     Seq (Plus_rx NotSpace) (Seq (Chr 0x40) (Seq (Plus_rx NotSpace)
       (Seq (Chr 0x2E) (Plus_rx NotSpace))))"

definition test :: "regex \<Rightarrow> jsstring \<Rightarrow> bool" where
  "test r s = matches r s"

section \<open>Avatar colours (lib/avatar.ts)\<close>

record palette_entry =
  backgroundColor :: jsstring
  textColor :: jsstring

definition palette :: "palette_entry list" where
  "palette =
     [\<lparr>backgroundColor = js ''#E0E7FF'', textColor = js ''#3730A3''\<rparr>,
      \<lparr>backgroundColor = js ''#FEF3C7'', textColor = js ''#B45309''\<rparr>,
      \<lparr>backgroundColor = js ''#DCFCE7'', textColor = js ''#047857''\<rparr>,
      \<lparr>backgroundColor = js ''#FDE68A'', textColor = js ''#92400E''\<rparr>,
      \<lparr>backgroundColor = js ''#FCE7F3'', textColor = js ''#9D174D''\<rparr>,
      \<lparr>backgroundColor = js ''#E2E8F0'', textColor = js ''#1E293B''\<rparr>,
      \<lparr>backgroundColor = js ''#E0F2FE'', textColor = js ''#0369A1''\<rparr>,
      \<lparr>backgroundColor = js ''#F3E8FF'', textColor = js ''#7C3AED''\<rparr>]"

text \<open>
  \<open>String.prototype.toUpperCase\<close> is a parameter. A number that may be \<open>NaN\<close>
  is a \<open>nat option\<close>; \<open>palette[NaN]\<close> is \<open>undefined\<close>, and so is the result
  of \<open>??\<close> when both sides are.
\<close>

definition getAvatarPalette :: "(jsstring \<Rightarrow> jsstring) \<Rightarrow> jsstring \<Rightarrow> palette_entry option" where
  "getAvatarPalette toUpperCase nm =
     (let firstChar = index_opt (trim nm) 0;
          charCode = (case firstChar of
                        Some ch \<Rightarrow> charCodeAt (toUpperCase [ch]) 0
                      | None \<Rightarrow> Some 0);
          index = (if length palette \<noteq> 0
                   then map_option (\<lambda>n. n mod length palette) charCode
                   else Some 0)
      in case (case index of Some i \<Rightarrow> index_opt palette i | None \<Rightarrow> None) of
           Some entry \<Rightarrow> Some entry
         | None \<Rightarrow> index_opt palette 0)"

text \<open>\<open>toUpperCase\<close> on the letters of ASCII, for concrete inputs.\<close>

definition toUpperCase_ascii :: "jsstring \<Rightarrow> jsstring" where
  "toUpperCase_ascii s = map (\<lambda>c. if 97 \<le> unat c \<and> unat c \<le> 122 then c - 32 else c) s"

section \<open>Validation of the create form\<close>

text \<open>
  \<open>FormState\<close> has the fields of \<open>ContactDraft\<close>. \<open>nextErrors\<close> is the object
  the function fills, as its keys with their messages in the order they are set; it is
  what \<open>setErrors\<close> receives. The result is the payload, or \<open>null\<close>.
\<close>

type_synonym FormState = ContactDraft

datatype form_key = Name | Email | Phone

definition validate :: "FormState \<Rightarrow> (form_key \<times> string) list \<times> ContactDraft option" where
  "validate form =
     (let trimmedName = trim (name form);
          trimmedEmail = trim (email form);
          trimmedPhone = trim (phone form);
          nextErrors = [];
          nextErrors = (if trimmedName = [] then nextErrors @ [(Name, ''Name is required'')]
                        else nextErrors);
          nextErrors = (if trimmedEmail \<noteq> [] \<and> \<not> test emailPattern trimmedEmail
                        then nextErrors @ [(Email, ''Enter a valid email'')]
                        else nextErrors);
          nextErrors = (if trimmedPhone = [] then nextErrors @ [(Phone, ''Phone is required'')]
                        else nextErrors)
      in (nextErrors,
          if length (map fst nextErrors) > 0 then None
          else Some \<lparr>name = trimmedName, email = trimmedEmail, phone = trimmedPhone\<rparr>))"

section \<open>Concrete records\<close>

text \<open>The record of the spec's scenario, as the store holds it after its creation.\<close>

definition ada :: Contact where
  "ada = \<lparr>name = js ''Ada Lovelace'', email = js ''ada@example.com'', phone = js ''555-0100'',
          contact_id = js ''65a1'', createdAt = 1000, updatedAt = 1000\<rparr>"

text \<open>
  A draft and the record it becomes when created with id \<open>65a2\<close> at time 3000; the
  scenario's record after an update with that draft at time 3000; and a client whose
  cache holds the store's only record.
\<close>

definition grace_draft :: ContactDraft where
  "grace_draft = \<lparr>name = js ''Grace Hopper'', email = js ''grace@example.com'',
                   phone = js ''555-0101''\<rparr>"

definition grace :: Contact where
  "grace = \<lparr>name = js ''Grace Hopper'', email = js ''grace@example.com'',
             phone = js ''555-0101'', contact_id = js ''65a2'', createdAt = 3000, updatedAt = 3000\<rparr>"

definition w0 :: world where
  "w0 = \<lparr>server = [ada], data = Some [ada], sent = []\<rparr>"

definition ada_edited :: Contact where
  "ada_edited = \<lparr>name = js ''Grace Hopper'', email = js ''grace@example.com'',
     phone = js ''555-0101'', contact_id = js ''65a1'', createdAt = 1000, updatedAt = 3000\<rparr>"

section \<open>Properties of the store\<close>

lemma findById_None_iff: "findById i s = None \<longleftrightarrow> i \<notin> ids s"
  by (auto simp: findById_def ids_def find_None_iff)

lemma findById_Some_id: "findById i s = Some c \<Longrightarrow> contact_id c = i \<and> c \<in> set s"
  by (auto simp: findById_def find_Some_iff)

lemma findById_append_fresh:
  "i \<notin> ids s \<Longrightarrow> contact_id c = i \<Longrightarrow> findById i (s @ [c]) = Some c"
  by (induction s) (auto simp: findById_def ids_def)

lemma applyUpdate_id [simp]: "contact_id (applyUpdate u c) = contact_id c"
  by (simp add: applyUpdate_def)

lemma applyUpdate_createdAt [simp]: "createdAt (applyUpdate u c) = createdAt c"
  by (simp add: applyUpdate_def)

lemma findByIdAndUpdate_absent:
  "i \<notin> ids s \<Longrightarrow> findByIdAndUpdate i u new s = (None, s)"
  by (induction s) (auto simp: ids_def)

lemma findByIdAndUpdate_present:
  "findById i s = Some c \<Longrightarrow>
   \<exists>pre post. s = pre @ c # post \<and> i \<notin> ids pre \<and>
     findByIdAndUpdate i u new s =
       (Some (if new then applyUpdate u c else c), pre @ applyUpdate u c # post)"
proof (induction s)
  case Nil
  then show ?case by (simp add: findById_def)
next
  case (Cons d ds)
  show ?case
  proof (cases "contact_id d = i")
    case True
    with Cons.prems have "d = c" by (simp add: findById_def)
    with True have "d # ds = [] @ c # ds \<and> i \<notin> ids [] \<and>
        findByIdAndUpdate i u new (d # ds) =
          (Some (if new then applyUpdate u c else c), [] @ applyUpdate u c # ds)"
      by (simp add: ids_def)
    then show ?thesis by blast
  next
    case False
    with Cons.prems have "findById i ds = Some c" by (simp add: findById_def)
    from Cons.IH [OF this] obtain pre post where
      s: "ds = pre @ c # post" and f: "i \<notin> ids pre" and
      r: "findByIdAndUpdate i u new ds =
            (Some (if new then applyUpdate u c else c), pre @ applyUpdate u c # post)"
      by blast
    from s f r False have "d # ds = (d # pre) @ c # post \<and> i \<notin> ids (d # pre) \<and>
        findByIdAndUpdate i u new (d # ds) =
          (Some (if new then applyUpdate u c else c), (d # pre) @ applyUpdate u c # post)"
      by (simp add: ids_def)
    then show ?thesis by blast
  qed
qed

lemma findById_split:
  "i \<notin> ids pre \<Longrightarrow> contact_id c = i \<Longrightarrow> findById i (pre @ c # post) = Some c"
  by (induction pre) (auto simp: findById_def ids_def)

lemma findByIdAndDelete_absent:
  "i \<notin> ids s \<Longrightarrow> findByIdAndDelete i s = (None, s)"
  by (induction s) (auto simp: ids_def)

lemma findByIdAndDelete_present:
  "findById i s = Some c \<Longrightarrow>
   \<exists>pre post. s = pre @ c # post \<and> i \<notin> ids pre \<and>
     findByIdAndDelete i s = (Some c, pre @ post)"
proof (induction s)
  case Nil
  then show ?case by (simp add: findById_def)
next
  case (Cons d ds)
  show ?case
  proof (cases "contact_id d = i")
    case True
    with Cons.prems have "d = c" by (simp add: findById_def)
    with True have "d # ds = [] @ c # ds \<and> i \<notin> ids [] \<and>
        findByIdAndDelete i (d # ds) = (Some c, [] @ ds)"
      by (simp add: ids_def)
    then show ?thesis by blast
  next
    case False
    with Cons.prems have "findById i ds = Some c" by (simp add: findById_def)
    from Cons.IH [OF this] obtain pre post where
      s: "ds = pre @ c # post" and f: "i \<notin> ids pre" and
      r: "findByIdAndDelete i ds = (Some c, pre @ post)"
      by blast
    from s f r False have "d # ds = (d # pre) @ c # post \<and> i \<notin> ids (d # pre) \<and>
        findByIdAndDelete i (d # ds) = (Some c, (d # pre) @ post)"
      by (simp add: ids_def)
    then show ?thesis by blast
  qed
qed

text \<open>Every mutation keeps the ids of the store unique.\<close>

lemma findByIdAndUpdate_ids:
  "map contact_id (snd (findByIdAndUpdate i u new s)) = map contact_id s"
  by (induction s) (auto split: prod.splits)

lemma findByIdAndDelete_distinct:
  "distinct (map contact_id s) \<Longrightarrow> distinct (map contact_id (snd (findByIdAndDelete i s)))"
proof (induction s)
  case Nil
  then show ?case by simp
next
  case (Cons c cs)
  have sub: "set (snd (findByIdAndDelete i cs)) \<subseteq> set cs" for cs
    by (induction cs) (auto split: prod.splits)
  from Cons sub [of cs] show ?case
    by (auto split: prod.splits)
qed

lemma unique_ids_preserved:
  assumes "distinct (map contact_id s)"
  shows "distinct (map contact_id (snd (createContact oid now n e p s)))"
    and "distinct (map contact_id (snd (updateContact now i n' e' p' s)))"
    and "distinct (map contact_id (snd (deleteContact i s)))"
proof -
  show "distinct (map contact_id (snd (createContact oid now n e p s)))"
    using assms by (simp add: createContact_def save_def new_Contact_def ids_def Let_def)
  have "snd (updateContact now i n' e' p' s) =
          snd (findByIdAndUpdate i
            \<lparr>set_name = n', set_email = e', set_phone = p', set_updatedAt = Some now\<rparr> True s)"
    by (simp add: updateContact_def split: prod.splits option.splits)
  with assms show "distinct (map contact_id (snd (updateContact now i n' e' p' s)))"
    by (simp add: findByIdAndUpdate_ids)
  have "snd (deleteContact i s) = snd (findByIdAndDelete i s)"
    by (simp add: deleteContact_def split: prod.splits)
  with assms show "distinct (map contact_id (snd (deleteContact i s)))"
    by (simp add: findByIdAndDelete_distinct)
qed

section \<open>The resolvers: claims\<close>

text \<open>
  C1: for an id that a stored record \<open>c\<close> has, \<open>updateContact\<close> overwrites that
  record where it stands: each of name, e-mail and phone that is omitted keeps its stored
  value, each that is provided takes the value given, \<open>updatedAt\<close> becomes the current
  clock reading whatever is provided, and \<open>createdAt\<close>, the id and every other
  record stay as they were.
\<close>

theorem updateContact_partial:
  assumes "findById i s = Some c"
  shows "\<exists>pre post c'. s = pre @ c # post \<and> i \<notin> ids pre \<and>
     updateContact now i n e p s = (Inr c', pre @ c' # post) \<and>
     name c' = (case n of None \<Rightarrow> name c | Some v \<Rightarrow> v) \<and>
     email c' = (case e of None \<Rightarrow> email c | Some v \<Rightarrow> v) \<and>
     phone c' = (case p of None \<Rightarrow> phone c | Some v \<Rightarrow> v) \<and>
     updatedAt c' = now \<and> createdAt c' = createdAt c \<and> contact_id c' = contact_id c"
proof -
  let ?u = "\<lparr>set_name = n, set_email = e, set_phone = p, set_updatedAt = Some now\<rparr>"
  from findByIdAndUpdate_present [OF assms, of ?u True] obtain pre post where
    s: "s = pre @ c # post" and f: "i \<notin> ids pre" and
    r: "findByIdAndUpdate i ?u True s = (Some (applyUpdate ?u c), pre @ applyUpdate ?u c # post)"
    by auto
  have "updateContact now i n e p s = (Inr (applyUpdate ?u c), pre @ applyUpdate ?u c # post)"
    by (simp add: updateContact_def r)
  moreover have "name (applyUpdate ?u c) = (case n of None \<Rightarrow> name c | Some v \<Rightarrow> v)"
    "email (applyUpdate ?u c) = (case e of None \<Rightarrow> email c | Some v \<Rightarrow> v)"
    "phone (applyUpdate ?u c) = (case p of None \<Rightarrow> phone c | Some v \<Rightarrow> v)"
    "updatedAt (applyUpdate ?u c) = now"
    by (simp_all add: applyUpdate_def)
  ultimately show ?thesis using s f by (intro exI [of _ pre] exI [of _ post] exI [of _ "applyUpdate ?u c"]) simp
qed

text \<open>The spec's scenario: only the phone number is provided.\<close>

theorem updateContact_partial_witness:
  "findById (js ''65a1'') [ada] = Some ada \<and>
   (\<exists>pre post c'. [ada] = pre @ ada # post \<and> js ''65a1'' \<notin> ids pre \<and>
     updateContact 2000 (js ''65a1'') None None (Some (js ''555-0199'')) [ada]
       = (Inr c', pre @ c' # post) \<and>
     name c' = name ada \<and> email c' = email ada \<and> phone c' = js ''555-0199'' \<and>
     updatedAt c' = 2000 \<and> createdAt c' = createdAt ada \<and> contact_id c' = contact_id ada)"
proof -
  have h: "findById (js ''65a1'') [ada] = Some ada"
    by (simp add: findById_def ada_def)
  from updateContact_partial [OF h, of 2000 None None "Some (js ''555-0199'')"] h
  show ?thesis by simp
qed

lemma findById_in_ids: "i \<in> ids s \<Longrightarrow> \<exists>c. findById i s = Some c"
  using findById_None_iff [of i s] by (cases "findById i s") auto

text \<open>
  C2: for an id that no record has, \<open>updateContact\<close> throws "Contact not found" (and
  leaves the store as it was); for an id that a record has, it returns the record as it
  is stored after the update.
\<close>

theorem updateContact_error_or_record:
  "(i \<notin> ids s \<longrightarrow> updateContact now i n e p s = (Inl ContactNotFound, s)) \<and>
   (i \<in> ids s \<longrightarrow>
      (\<exists>c' s'. updateContact now i n e p s = (Inr c', s') \<and>
         getContact i s' = Inr (Some c') \<and> updatedAt c' = now))"
proof (intro conjI impI)
  assume "i \<notin> ids s"
  then show "updateContact now i n e p s = (Inl ContactNotFound, s)"
    by (simp add: updateContact_def findByIdAndUpdate_absent)
next
  let ?u = "\<lparr>set_name = n, set_email = e, set_phone = p, set_updatedAt = Some now\<rparr>"
  assume "i \<in> ids s"
  then obtain c where c: "findById i s = Some c"
    using findById_in_ids by blast
  from findByIdAndUpdate_present [OF c, of ?u True] obtain pre post where
    f: "i \<notin> ids pre" and
    r: "findByIdAndUpdate i ?u True s = (Some (applyUpdate ?u c), pre @ applyUpdate ?u c # post)"
    by auto
  from c have "contact_id c = i" by (simp add: findById_Some_id)
  with f have "findById i (pre @ applyUpdate ?u c # post) = Some (applyUpdate ?u c)"
    by (simp add: findById_split)
  moreover have "updatedAt (applyUpdate ?u c) = now" by (simp add: applyUpdate_def)
  ultimately show "\<exists>c' s'. updateContact now i n e p s = (Inr c', s') \<and>
         getContact i s' = Inr (Some c') \<and> updatedAt c' = now"
    by (simp add: updateContact_def r getContact_def)
qed

theorem updateContact_error_or_record_witness:
  "js ''does-not-exist'' \<notin> ids [ada] \<and> js ''65a1'' \<in> ids [ada] \<and>
   updateContact 2000 (js ''does-not-exist'') (Some (js ''Ada'')) None None [ada]
     = (Inl ContactNotFound, [ada]) \<and>
   (\<exists>c' s'. updateContact 2000 (js ''65a1'') (Some (js ''Ada'')) None None [ada] = (Inr c', s') \<and>
      getContact (js ''65a1'') s' = Inr (Some c') \<and> updatedAt c' = 2000)"
proof -
  have a: "js ''does-not-exist'' \<notin> ids [ada]" by (simp add: ids_def ada_def js_def)
  have b: "js ''65a1'' \<in> ids [ada]" by (simp add: ids_def ada_def)
  from a b
    updateContact_error_or_record [of "js ''does-not-exist''" "[ada]" 2000 "Some (js ''Ada'')" None None]
    updateContact_error_or_record [of "js ''65a1''" "[ada]" 2000 "Some (js ''Ada'')" None None]
  show ?thesis by blast
qed

lemma findById_remove:
  "distinct (map contact_id (pre @ c # post)) \<Longrightarrow> findById (contact_id c) (pre @ post) = None"
  by (auto simp: findById_None_iff ids_def)

text \<open>
  C3: in a store whose ids are unique, \<open>deleteContact\<close> never throws; it returns
  \<open>true\<close> exactly when a record with the id existed, and then that record is gone
  from the store; it returns \<open>false\<close> and leaves the store as it was otherwise;
  either way \<open>getContact\<close> on the id is absent afterwards.
\<close>

theorem deleteContact_bool:
  assumes "distinct (map contact_id s)"
  shows "\<exists>b s'. deleteContact i s = (Inr b, s') \<and> (b \<longleftrightarrow> i \<in> ids s) \<and>
           (if i \<in> ids s
            then \<exists>pre c post. s = pre @ c # post \<and> contact_id c = i \<and> s' = pre @ post
            else s' = s) \<and>
           getContact i s' = Inr None"
proof (cases "i \<in> ids s")
  case False
  then show ?thesis
    by (auto simp: deleteContact_def findByIdAndDelete_absent getContact_def findById_None_iff)
next
  case True
  then obtain c where c: "findById i s = Some c"
    using findById_in_ids by blast
  from findByIdAndDelete_present [OF c] obtain pre post where
    s: "s = pre @ c # post" and r: "findByIdAndDelete i s = (Some c, pre @ post)"
    by auto
  from c have i: "contact_id c = i" by (simp add: findById_Some_id)
  from assms s i have "findById i (pre @ post) = None"
    using findById_remove [of pre c post] by simp
  with True s i r show ?thesis
    by (auto simp: deleteContact_def getContact_def)
qed

theorem deleteContact_bool_witness:
  "distinct (map contact_id [ada]) \<and>
   deleteContact (js ''65a1'') [ada] = (Inr True, []) \<and>
   deleteContact (js ''does-not-exist'') [ada] = (Inr False, [ada]) \<and>
   getContact (js ''65a1'') [] = Inr None"
proof -
  have d: "distinct (map contact_id [ada])" by simp
  have a: "js ''does-not-exist'' \<notin> ids [ada]" by (simp add: ids_def ada_def js_def)
  have b: "js ''65a1'' \<in> ids [ada]" by (simp add: ids_def ada_def)
  from deleteContact_bool [OF d, of "js ''65a1''"] b
  have "deleteContact (js ''65a1'') [ada] = (Inr True, [])"
    by (auto simp: Cons_eq_append_conv)
  moreover from deleteContact_bool [OF d, of "js ''does-not-exist''"] a
  have "deleteContact (js ''does-not-exist'') [ada] = (Inr False, [ada])"
    by auto
  ultimately show ?thesis using d by (simp add: getContact_def findById_def)
qed

text \<open>
  C4: when the store generates an unused id, \<open>createContact\<close> succeeds for all
  name, e-mail and phone; the record it returns carries the inputs, the generated id and
  both timestamps, which are equal; and \<open>getContact\<close> on the returned id yields
  that same record.
\<close>

theorem createContact_then_getContact:
  assumes "oid \<notin> ids s"
  shows "\<exists>c s'. createContact oid now n e p s = (Inr c, s') \<and>
           getContact (contact_id c) s' = Inr (Some c) \<and>
           name c = n \<and> email c = e \<and> phone c = p \<and>
           createdAt c = updatedAt c \<and> contact_id c = oid \<and> createdAt c = now"
  using assms
  by (simp add: createContact_def save_def new_Contact_def getContact_def findById_append_fresh Let_def)

theorem createContact_then_getContact_witness:
  "js ''65a2'' \<notin> ids [ada] \<and>
   (\<exists>c s'. createContact (js ''65a2'') 3000 (js ''Grace Hopper'') (js ''grace@example.com'')
              (js ''555-0101'') [ada] = (Inr c, s') \<and>
      getContact (contact_id c) s' = Inr (Some c) \<and>
      name c = js ''Grace Hopper'' \<and> email c = js ''grace@example.com'' \<and>
      phone c = js ''555-0101'' \<and>
      createdAt c = updatedAt c \<and> contact_id c = js ''65a2'' \<and> createdAt c = 3000)"
proof -
  have h: "js ''65a2'' \<notin> ids [ada]" by (simp add: ids_def ada_def js_def)
  from createContact_then_getContact [OF h] h show ?thesis by blast
qed

text \<open>
  C5: \<open>getContact\<close> never throws, and for an id that no record has its result is
  absent.
\<close>

theorem getContact_absent:
  "(\<exists>r. getContact i s = Inr r) \<and> (i \<notin> ids s \<longrightarrow> getContact i s = Inr None)"
  by (simp add: getContact_def findById_None_iff)

theorem getContact_absent_witness:
  "js ''does-not-exist'' \<notin> ids [ada] \<and> getContact (js ''does-not-exist'') [ada] = Inr None"
proof -
  have a: "js ''does-not-exist'' \<notin> ids [ada]" by (simp add: ids_def ada_def js_def)
  with getContact_absent [of "js ''does-not-exist''" "[ada]"] show ?thesis by blast
qed

section \<open>Properties of the client data layer\<close>

lemma refreshContacts_Delivered:
  "refreshContacts Delivered w =
     (Inr (), w\<lparr>sent := sent w @ [GetContactsReq], data := Some (server w)\<rparr>)"
  by (simp add: refreshContacts_def refetch_def getContacts_def find_all_def)

lemma refreshContacts_lost:
  "ql \<noteq> Delivered \<Longrightarrow>
   refreshContacts ql w = (Inl NetworkError, w\<lparr>sent := sent w @ [GetContactsReq]\<rparr>)"
  by (cases ql) (simp_all add: refreshContacts_def refetch_def getContacts_def)

lemma draft_eta: "\<lparr>name = name d, email = email d, phone = phone d\<rparr> = (d :: ContactDraft)"
  by simp

lemma createContact_Inr:
  "createContact oid now n e p s = (Inr c, s') \<Longrightarrow>
   oid \<notin> ids s \<and> contact_id c = oid \<and> s' = s @ [c]"
  by (auto simp: createContact_def save_def new_Contact_def Let_def split: if_splits)

lemma transport_Inr:
  "transport ml f s = (Inr r, s') \<Longrightarrow> ml = Delivered \<and> f s = (Inr r, s')"
  by (cases ml) auto

lemma createContact_mutation_ok:
  assumes "transport ml (createContact oid now (name d) (email d) (phone d)) (server w) = (Inr c, s1)"
  shows "createContact_mutation ml oid now d w =
             (Inr (Some c), w\<lparr>sent := sent w @ [CreateContactReq d], server := s1,
                              data := writeContact c (data w)\<rparr>)"
  using assms by (simp add: createContact_mutation_def)

lemma addContact_eq:
  "addContact ml ql oid now (d :: ContactDraft) w =
     (case createContact_mutation ml oid now d w of
        (Inl e, w1) \<Rightarrow> (Inl e, w1)
      | (Inr response_data, w1) \<Rightarrow>
          (case refreshContacts ql w1 of
             (Inl e, w2) \<Rightarrow> (Inl e, w2)
           | (Inr _, w2) \<Rightarrow> (Inr (map_option contact_id response_data), w2)))"
  by (simp add: addContact_def draft_eta)

lemma addContact_ok_Delivered:
  assumes "transport ml (createContact oid now (name d) (email d) (phone d)) (server w) = (Inr c, s1)"
  shows "addContact ml Delivered oid now d w =
           (Inr (Some (contact_id c)),
            w\<lparr>sent := sent w @ [CreateContactReq d, GetContactsReq], server := s1, data := Some s1\<rparr>)"
  by (simp add: addContact_eq createContact_mutation_ok [OF assms] refreshContacts_Delivered)

lemma addContact_ok_lost:
  assumes "transport ml (createContact oid now (name d) (email d) (phone d)) (server w) = (Inr c, s1)"
    and "ql \<noteq> Delivered"
  shows "addContact ml ql oid now d w =
           (Inl NetworkError,
            w\<lparr>sent := sent w @ [CreateContactReq d, GetContactsReq], server := s1,
              data := writeContact c (data w)\<rparr>)"
  by (simp add: addContact_eq createContact_mutation_ok [OF assms(1)] refreshContacts_lost [OF assms(2)])

lemma updateContactMutation_ok:
  assumes "transport ml (updateContact now i (Some (name d)) (Some (email d)) (Some (phone d)))
             (server w) = (Inr c, s2)"
  shows "updateContactMutation ml now i d w =
           (Inr (Some c), w\<lparr>sent := sent w @ [UpdateContactReq i d], server := s2,
                            data := writeContact c (data w)\<rparr>)"
  using assms by (simp add: updateContactMutation_def)

lemma deleteContactMutation_ok:
  assumes "transport ml (deleteContact i) (server w) = (Inr b, s3)"
  shows "deleteContactMutation ml i w =
           (Inr (Some b), w\<lparr>sent := sent w @ [DeleteContactReq i], server := s3\<rparr>)"
  using assms by (simp add: deleteContactMutation_def)

lemma updateContact_ctx_eq:
  "updateContact_ctx ml ql now i (d :: ContactDraft) w =
     (case updateContactMutation ml now i d w of
        (Inl e, w1) \<Rightarrow> (Inl e, w1)
      | (Inr _, w1) \<Rightarrow> refreshContacts ql w1)"
  by (simp add: updateContact_ctx_def draft_eta)

lemma updateContact_ctx_ok_Delivered:
  assumes "transport ml (updateContact now i (Some (name d)) (Some (email d)) (Some (phone d)))
             (server w) = (Inr c, s2)"
  shows "updateContact_ctx ml Delivered now i d w =
           (Inr (),
            w\<lparr>sent := sent w @ [UpdateContactReq i d, GetContactsReq], server := s2, data := Some s2\<rparr>)"
  by (simp add: updateContact_ctx_eq updateContactMutation_ok [OF assms] refreshContacts_Delivered)

lemma updateContact_ctx_ok_lost:
  assumes "transport ml (updateContact now i (Some (name d)) (Some (email d)) (Some (phone d)))
             (server w) = (Inr c, s2)"
    and "ql \<noteq> Delivered"
  shows "updateContact_ctx ml ql now i d w =
           (Inl NetworkError,
            w\<lparr>sent := sent w @ [UpdateContactReq i d, GetContactsReq], server := s2,
              data := writeContact c (data w)\<rparr>)"
  by (simp add: updateContact_ctx_eq updateContactMutation_ok [OF assms(1)]
      refreshContacts_lost [OF assms(2)])

lemma deleteContact_ctx_ok_Delivered:
  assumes "transport ml (deleteContact i) (server w) = (Inr b, s3)"
  shows "deleteContact_ctx ml Delivered i w =
           (Inr (),
            w\<lparr>sent := sent w @ [DeleteContactReq i, GetContactsReq], server := s3, data := Some s3\<rparr>)"
  by (simp add: deleteContact_ctx_def deleteContactMutation_ok [OF assms] refreshContacts_Delivered)

lemma deleteContact_ctx_ok_lost:
  assumes "transport ml (deleteContact i) (server w) = (Inr b, s3)" and "ql \<noteq> Delivered"
  shows "deleteContact_ctx ml ql i w =
           (Inl NetworkError,
            w\<lparr>sent := sent w @ [DeleteContactReq i, GetContactsReq], server := s3\<rparr>)"
  by (simp add: deleteContact_ctx_def deleteContactMutation_ok [OF assms(1)]
      refreshContacts_lost [OF assms(2)])

lemma addContact_failed:
  assumes "transport ml (createContact oid now (name d) (email d) (phone d)) (server w) = (Inl e, s1)"
  shows "addContact ml ql oid now d w =
           (Inl e, w\<lparr>sent := sent w @ [CreateContactReq d], server := s1\<rparr>)"
  using assms by (simp add: addContact_eq createContact_mutation_def)

lemma updateContact_ctx_failed:
  assumes "transport ml (updateContact now i (Some (name d)) (Some (email d)) (Some (phone d)))
             (server w) = (Inl e, s2)"
  shows "updateContact_ctx ml ql now i d w =
           (Inl e, w\<lparr>sent := sent w @ [UpdateContactReq i d], server := s2\<rparr>)"
  using assms by (simp add: updateContact_ctx_eq updateContactMutation_def)

lemma deleteContact_ctx_failed:
  assumes "transport ml (deleteContact i) (server w) = (Inl e, s3)"
  shows "deleteContact_ctx ml ql i w =
           (Inl e, w\<lparr>sent := sent w @ [DeleteContactReq i], server := s3\<rparr>)"
  using assms by (simp add: deleteContact_ctx_def deleteContactMutation_def)

lemma writeContact_ids:
  "map contact_id (case writeContact c d of None \<Rightarrow> [] | Some cs \<Rightarrow> cs) =
   map contact_id (case d of None \<Rightarrow> [] | Some cs \<Rightarrow> cs)"
  by (cases d) (simp_all add: writeContact_def comp_def)

lemma created_in_store:
  assumes "transport ml (createContact oid now n e p) s = (Inr c, s1)"
  shows "findById (contact_id c) s1 = Some c"
proof -
  from transport_Inr [OF assms] have "createContact oid now n e p s = (Inr c, s1)"
    by simp
  then have "oid \<notin> ids s \<and> contact_id c = oid \<and> s1 = s @ [c]"
    by (rule createContact_Inr)
  then show ?thesis by (simp add: findById_append_fresh)
qed

section \<open>The client data layer: claims\<close>

text \<open>
  C6: when the mutation request of \<open>addContact\<close>, \<open>updateContact\<close> or
  \<open>deleteContact\<close> of the context is answered without an error, the operation
  issues exactly two requests, the mutation and then the list fetch, whatever the
  mutation returned; when the fetch is answered the cache is the whole list of the store
  as the mutation left it, and \<open>addContact\<close> returns the id of the created record,
  which the cache then holds; when the fetch fails the failure is reported and the cached
  list has the entries, by id and in order, that it had before: nothing was inserted or
  removed ahead of the fetch.
\<close>

theorem mutation_then_refresh:
  "(transport ml (createContact oid now (name d) (email d) (phone d)) (server w) = (Inr c, s1) \<longrightarrow>
      (\<exists>r w'. addContact ml ql oid now d w = (r, w') \<and>
         sent w' = sent w @ [CreateContactReq d, GetContactsReq] \<and> server w' = s1 \<and>
         (if ql = Delivered
          then r = Inr (Some (contact_id c)) \<and> data w' = Some s1 \<and>
               getContactById (contact_id c) w' = Some c
          else r = Inl NetworkError \<and>
               map contact_id (contacts w') = map contact_id (contacts w)))) \<and>
   (transport ml (updateContact now i (Some (name d)) (Some (email d)) (Some (phone d))) (server w)
      = (Inr c2, s2) \<longrightarrow>
      (\<exists>r w'. updateContact_ctx ml ql now i d w = (r, w') \<and>
         sent w' = sent w @ [UpdateContactReq i d, GetContactsReq] \<and> server w' = s2 \<and>
         (if ql = Delivered then r = Inr () \<and> data w' = Some s2
          else r = Inl NetworkError \<and>
               map contact_id (contacts w') = map contact_id (contacts w)))) \<and>
   (transport ml (deleteContact i) (server w) = (Inr b, s3) \<longrightarrow>
      (\<exists>r w'. deleteContact_ctx ml ql i w = (r, w') \<and>
         sent w' = sent w @ [DeleteContactReq i, GetContactsReq] \<and> server w' = s3 \<and>
         (if ql = Delivered then r = Inr () \<and> data w' = Some s3
          else r = Inl NetworkError \<and> data w' = data w \<and>
               map contact_id (contacts w') = map contact_id (contacts w))))"
proof (intro conjI impI)
  assume t: "transport ml (createContact oid now (name d) (email d) (phone d)) (server w) = (Inr c, s1)"
  show "\<exists>r w'. addContact ml ql oid now d w = (r, w') \<and>
         sent w' = sent w @ [CreateContactReq d, GetContactsReq] \<and> server w' = s1 \<and>
         (if ql = Delivered
          then r = Inr (Some (contact_id c)) \<and> data w' = Some s1 \<and>
               getContactById (contact_id c) w' = Some c
          else r = Inl NetworkError \<and>
               map contact_id (contacts w') = map contact_id (contacts w))"
  proof (cases "ql = Delivered")
    case True
    have "List.find (\<lambda>x. contact_id x = contact_id c) s1 = Some c"
      using created_in_store [OF t] by (simp add: findById_def)
    with True show ?thesis
      by (simp add: addContact_ok_Delivered [OF t] getContactById_def contacts_def)
  next
    case False
    then show ?thesis
      by (simp add: addContact_ok_lost [OF t False] contacts_def writeContact_ids)
  qed
next
  assume t: "transport ml (updateContact now i (Some (name d)) (Some (email d)) (Some (phone d)))
               (server w) = (Inr c2, s2)"
  show "\<exists>r w'. updateContact_ctx ml ql now i d w = (r, w') \<and>
         sent w' = sent w @ [UpdateContactReq i d, GetContactsReq] \<and> server w' = s2 \<and>
         (if ql = Delivered then r = Inr () \<and> data w' = Some s2
          else r = Inl NetworkError \<and>
               map contact_id (contacts w') = map contact_id (contacts w))"
  proof (cases "ql = Delivered")
    case True
    then show ?thesis
      by (simp add: updateContact_ctx_ok_Delivered [OF t])
  next
    case False
    then show ?thesis
      by (simp add: updateContact_ctx_ok_lost [OF t False] contacts_def writeContact_ids)
  qed
next
  assume t: "transport ml (deleteContact i) (server w) = (Inr b, s3)"
  show "\<exists>r w'. deleteContact_ctx ml ql i w = (r, w') \<and>
         sent w' = sent w @ [DeleteContactReq i, GetContactsReq] \<and> server w' = s3 \<and>
         (if ql = Delivered then r = Inr () \<and> data w' = Some s3
          else r = Inl NetworkError \<and> data w' = data w \<and>
               map contact_id (contacts w') = map contact_id (contacts w))"
  proof (cases "ql = Delivered")
    case True
    then show ?thesis
      by (simp add: deleteContact_ctx_ok_Delivered [OF t])
  next
    case False
    then show ?thesis
      by (simp add: deleteContact_ctx_ok_lost [OF t False] contacts_def)
  qed
qed

text \<open>
  C7: when the mutation request of \<open>addContact\<close>, \<open>updateContact\<close> or
  \<open>deleteContact\<close> of the context fails (the resolver throws, or the transport
  fails), the operation reports that failure, the cache is as before, and the mutation is
  the only request issued: no list fetch and no second attempt.
\<close>

theorem failed_mutation_keeps_cache:
  "(transport ml (createContact oid now (name d) (email d) (phone d)) (server w) = (Inl e, s1) \<longrightarrow>
      (\<exists>w'. addContact ml ql oid now d w = (Inl e, w') \<and>
         data w' = data w \<and> contacts w' = contacts w \<and>
         sent w' = sent w @ [CreateContactReq d])) \<and>
   (transport ml (updateContact now i (Some (name d)) (Some (email d)) (Some (phone d))) (server w)
      = (Inl e, s2) \<longrightarrow>
      (\<exists>w'. updateContact_ctx ml ql now i d w = (Inl e, w') \<and>
         data w' = data w \<and> contacts w' = contacts w \<and>
         sent w' = sent w @ [UpdateContactReq i d])) \<and>
   (transport ml (deleteContact i) (server w) = (Inl e, s3) \<longrightarrow>
      (\<exists>w'. deleteContact_ctx ml ql i w = (Inl e, w') \<and>
         data w' = data w \<and> contacts w' = contacts w \<and>
         sent w' = sent w @ [DeleteContactReq i]))"
  by (simp add: addContact_failed updateContact_ctx_failed deleteContact_ctx_failed contacts_def)

text \<open>
  C8: two calls of \<open>refreshContacts\<close> that are both answered, with no mutation
  between them, leave the same cached list, the list of the store, and the store as it
  was; the second call stores that list whatever the cache held before it.
\<close>

theorem refresh_idempotent:
  "\<exists>w1 w2. refreshContacts Delivered w = (Inr (), w1) \<and>
     refreshContacts Delivered w1 = (Inr (), w2) \<and>
     data w1 = Some (server w) \<and> data w2 = data w1 \<and> contacts w2 = contacts w1 \<and>
     server w2 = server w \<and>
     (\<forall>cache. data (snd (refreshContacts Delivered (w1\<lparr>data := cache\<rparr>))) = data w1)"
  by (simp add: refreshContacts_Delivered contacts_def)

theorem mutation_then_refresh_witness:
  "transport Delivered
     (createContact (js ''65a2'') 3000 (name grace_draft) (email grace_draft) (phone grace_draft))
     (server w0) = (Inr grace, [ada, grace]) \<and>
   transport Delivered
     (updateContact 3000 (js ''65a1'') (Some (name grace_draft)) (Some (email grace_draft))
        (Some (phone grace_draft)))
     (server w0) = (Inr ada_edited, [ada_edited]) \<and>
   transport Delivered (deleteContact (js ''65a1'')) (server w0) = (Inr True, []) \<and>
   addContact Delivered Delivered (js ''65a2'') 3000 grace_draft w0 =
     (Inr (Some (js ''65a2'')),
      \<lparr>server = [ada, grace], data = Some [ada, grace],
        sent = [CreateContactReq grace_draft, GetContactsReq]\<rparr>) \<and>
   updateContact_ctx Delivered Delivered 3000 (js ''65a1'') grace_draft w0 =
     (Inr (),
      \<lparr>server = [ada_edited], data = Some [ada_edited],
        sent = [UpdateContactReq (js ''65a1'') grace_draft, GetContactsReq]\<rparr>) \<and>
   deleteContact_ctx Delivered Delivered (js ''65a1'') w0 =
     (Inr (),
      \<lparr>server = [], data = Some [], sent = [DeleteContactReq (js ''65a1''), GetContactsReq]\<rparr>)"
proof -
  have h1: "transport Delivered
     (createContact (js ''65a2'') 3000 (name grace_draft) (email grace_draft) (phone grace_draft))
     (server w0) = (Inr grace, [ada, grace])"
    by (simp add: createContact_def save_def new_Contact_def ids_def ada_def grace_def
        grace_draft_def w0_def js_def Let_def)
  have h2: "transport Delivered
     (updateContact 3000 (js ''65a1'') (Some (name grace_draft)) (Some (email grace_draft))
        (Some (phone grace_draft)))
     (server w0) = (Inr ada_edited, [ada_edited])"
    by (simp add: updateContact_def applyUpdate_def ada_def ada_edited_def grace_draft_def w0_def)
  have h3: "transport Delivered (deleteContact (js ''65a1'')) (server w0) = (Inr True, [])"
    by (simp add: deleteContact_def ada_def w0_def)
  have id: "contact_id grace = js ''65a2''"
    by (simp add: grace_def)
  have eq: "\<And>w' s c l. sent w' = l \<Longrightarrow> server w' = s \<Longrightarrow> data w' = c \<Longrightarrow>
              w' = \<lparr>server = s, data = c, sent = l\<rparr>"
    by auto
  have s0: "sent w0 = []"
    by (simp add: w0_def)
  from mutation_then_refresh [of Delivered "js ''65a2''" 3000 grace_draft w0 grace "[ada, grace]"
      Delivered "js ''65a1''" ada_edited "[ada_edited]" True "[]"] h1 h2 h3
  show ?thesis
    by (auto simp: id s0 dest!: eq)
qed

theorem failed_mutation_keeps_cache_witness:
  "transport LostRequest
     (createContact (js ''65a2'') 3000 (name grace_draft) (email grace_draft) (phone grace_draft))
     (server w0) = (Inl NetworkError, [ada]) \<and>
   transport Delivered
     (updateContact 3000 (js ''does-not-exist'') (Some (name grace_draft))
        (Some (email grace_draft)) (Some (phone grace_draft)))
     (server w0) = (Inl ContactNotFound, [ada]) \<and>
   transport LostResponse (deleteContact (js ''65a1'')) (server w0) = (Inl NetworkError, []) \<and>
   (\<exists>w'. addContact LostRequest Delivered (js ''65a2'') 3000 grace_draft w0 =
           (Inl NetworkError, w') \<and>
         data w' = Some [ada] \<and> sent w' = [CreateContactReq grace_draft]) \<and>
   (\<exists>w'. updateContact_ctx Delivered Delivered 3000 (js ''does-not-exist'') grace_draft w0 =
           (Inl ContactNotFound, w') \<and>
         data w' = Some [ada] \<and>
         sent w' = [UpdateContactReq (js ''does-not-exist'') grace_draft]) \<and>
   (\<exists>w'. deleteContact_ctx LostResponse Delivered (js ''65a1'') w0 = (Inl NetworkError, w') \<and>
         data w' = Some [ada] \<and> sent w' = [DeleteContactReq (js ''65a1'')])"
proof -
  have h1: "transport LostRequest
     (createContact (js ''65a2'') 3000 (name grace_draft) (email grace_draft) (phone grace_draft))
     (server w0) = (Inl NetworkError, [ada])"
    by (simp add: w0_def)
  have h2: "transport Delivered
     (updateContact 3000 (js ''does-not-exist'') (Some (name grace_draft))
        (Some (email grace_draft)) (Some (phone grace_draft)))
     (server w0) = (Inl ContactNotFound, [ada])"
    by (simp add: updateContact_def ada_def w0_def js_def)
  have h3: "transport LostResponse (deleteContact (js ''65a1'')) (server w0) = (Inl NetworkError, [])"
    by (simp add: deleteContact_def ada_def w0_def)
  have w: "sent w0 = []" "data w0 = Some [ada]"
    by (simp_all add: w0_def)
  have a: "\<exists>w'. addContact LostRequest Delivered (js ''65a2'') 3000 grace_draft w0 =
           (Inl NetworkError, w') \<and>
         data w' = Some [ada] \<and> sent w' = [CreateContactReq grace_draft]"
    using failed_mutation_keeps_cache [of LostRequest "js ''65a2''" 3000 grace_draft w0
        NetworkError "[ada]" Delivered "js ''65a1''" "[ada]" "[ada]"] h1 w
    by auto
  have b: "\<exists>w'. updateContact_ctx Delivered Delivered 3000 (js ''does-not-exist'') grace_draft w0 =
           (Inl ContactNotFound, w') \<and>
         data w' = Some [ada] \<and>
         sent w' = [UpdateContactReq (js ''does-not-exist'') grace_draft]"
    using failed_mutation_keeps_cache [of Delivered "js ''65a2''" 3000 grace_draft w0
        ContactNotFound "[ada]" Delivered "js ''does-not-exist''" "[ada]" "[ada]"] h2 w
    by auto
  have c: "\<exists>w'. deleteContact_ctx LostResponse Delivered (js ''65a1'') w0 =
           (Inl NetworkError, w') \<and>
         data w' = Some [ada] \<and> sent w' = [DeleteContactReq (js ''65a1'')]"
    using failed_mutation_keeps_cache [of LostResponse "js ''65a2''" 3000 grace_draft w0
        NetworkError "[ada]" Delivered "js ''65a1''" "[ada]" "[]"] h3 w
    by auto
  from h1 h2 h3 a b c show ?thesis
    by blast
qed

theorem refresh_idempotent_witness:
  "\<exists>w1 w2. refreshContacts Delivered w0 = (Inr (), w1) \<and>
     refreshContacts Delivered w1 = (Inr (), w2) \<and> contacts w1 = [ada] \<and> contacts w2 = [ada]"
  using refresh_idempotent [of w0] by (auto simp: contacts_def w0_def)

section \<open>Properties of trimming and of the palette\<close>

lemma index_opt_trim:
  "index_opt (trim s) 0 = List.find (\<lambda>c. \<not> isWhiteSpace c) s"
proof (cases "dropWhile isWhiteSpace s")
  case Nil
  then have "\<forall>c\<in>set s. isWhiteSpace c"
    by (simp add: dropWhile_eq_Nil_conv)
  then have "List.find (\<lambda>c. \<not> isWhiteSpace c) s = None"
    by (simp add: find_None_iff)
  moreover have "trim s = []"
    by (simp only: trim_def Nil rev.simps dropWhile.simps)
  ultimately show ?thesis
    by (simp add: index_opt_def)
next
  case (Cons c r)
  then have nw: "\<not> isWhiteSpace c"
    using hd_dropWhile [of isWhiteSpace s] by simp
  have "\<exists>ys. dropWhile isWhiteSpace (rev r @ [c]) = ys @ [c]"
    using nw by (simp add: dropWhile_append)
  then obtain ys where "dropWhile isWhiteSpace (rev r @ [c]) = ys @ [c]" ..
  with Cons have "trim s = c # rev ys"
    by (simp add: trim_def)
  moreover from Cons have "List.find (\<lambda>c. \<not> isWhiteSpace c) s = Some c"
    by (simp add: find_dropWhile comp_def)
  ultimately show ?thesis
    by (simp add: index_opt_def)
qed

lemma length_palette: "length palette = 8"
  by (simp add: palette_def)

lemma index_opt_palette: "k < 8 \<Longrightarrow> index_opt palette k = Some (palette ! k)"
  by (simp add: index_opt_def length_palette)

lemma getAvatarPalette_blank:
  "List.find (\<lambda>c. \<not> isWhiteSpace c) nm = None \<Longrightarrow>
   getAvatarPalette toUpperCase nm = Some (palette ! 0)"
  by (simp add: getAvatarPalette_def index_opt_trim length_palette index_opt_palette)

lemma getAvatarPalette_NaN:
  "List.find (\<lambda>c. \<not> isWhiteSpace c) nm = Some ch \<Longrightarrow> toUpperCase [ch] = [] \<Longrightarrow>
   getAvatarPalette toUpperCase nm = Some (palette ! 0)"
  by (simp add: getAvatarPalette_def index_opt_trim length_palette index_opt_palette
      charCodeAt_def)

lemma getAvatarPalette_code:
  "List.find (\<lambda>c. \<not> isWhiteSpace c) nm = Some ch \<Longrightarrow> toUpperCase [ch] = u # us \<Longrightarrow>
   getAvatarPalette toUpperCase nm = Some (palette ! (unat u mod 8))"
  by (simp add: getAvatarPalette_def index_opt_trim length_palette index_opt_palette
      charCodeAt_def)

section \<open>Avatar colours: claims\<close>

text \<open>
  C9: for every name, and whatever \<open>toUpperCase\<close> returns, \<open>getAvatarPalette\<close>
  returns an entry of the palette of eight: entry 0 when the name has no character other
  than white space (its trimmed form is empty), and otherwise the entry at the code of
  the first code unit of the upper-cased first non-white-space character, modulo 8. The
  index is always below 8.
\<close>

theorem getAvatarPalette_total:
  "length palette = 8 \<and>
   (\<exists>k < 8. getAvatarPalette toUpperCase nm = Some (palette ! k) \<and>
      k = (case List.find (\<lambda>c. \<not> isWhiteSpace c) nm of
             None \<Rightarrow> 0
           | Some ch \<Rightarrow> (case toUpperCase [ch] of [] \<Rightarrow> 0 | u # _ \<Rightarrow> unat u mod 8))) \<and>
   (trim nm = [] \<longleftrightarrow> List.find (\<lambda>c. \<not> isWhiteSpace c) nm = None)"
proof -
  have "index_opt (trim nm) 0 = None \<longleftrightarrow> trim nm = []"
    by (simp add: index_opt_def)
  then have t: "(trim nm = []) = (List.find (\<lambda>c. \<not> isWhiteSpace c) nm = None)"
    by (simp add: index_opt_trim)
  have "getAvatarPalette toUpperCase nm =
          Some (palette ! (case List.find (\<lambda>c. \<not> isWhiteSpace c) nm of
             None \<Rightarrow> 0
           | Some ch \<Rightarrow> (case toUpperCase [ch] of [] \<Rightarrow> 0 | u # _ \<Rightarrow> unat u mod 8)))"
  proof (cases "List.find (\<lambda>c. \<not> isWhiteSpace c) nm")
    case None
    then show ?thesis by (simp add: getAvatarPalette_blank)
  next
    case (Some ch)
    then show ?thesis
      by (cases "toUpperCase [ch]") (simp_all add: getAvatarPalette_NaN getAvatarPalette_code)
  qed
  moreover have "(case List.find (\<lambda>c. \<not> isWhiteSpace c) nm of
             None \<Rightarrow> 0
           | Some ch \<Rightarrow> (case toUpperCase [ch] of [] \<Rightarrow> 0 | u # _ \<Rightarrow> unat u mod 8)) < (8::nat)"
    by (simp split: option.split list.split)
  ultimately show ?thesis
    using t by (simp add: length_palette)
qed

theorem getAvatarPalette_total_witness:
  "getAvatarPalette toUpperCase_ascii (js ''  ada'') =
     Some \<lparr>backgroundColor = js ''#FEF3C7'', textColor = js ''#B45309''\<rparr> \<and>
   getAvatarPalette toUpperCase_ascii (js ''   '') =
     Some \<lparr>backgroundColor = js ''#E0E7FF'', textColor = js ''#3730A3''\<rparr>"
proof -
  have a: "List.find (\<lambda>c. \<not> isWhiteSpace c) (js ''  ada'') = Some 97"
    by (simp add: js_def isWhiteSpace_def)
  have b: "toUpperCase_ascii [97] = [65]"
    by (simp add: toUpperCase_ascii_def)
  have c: "List.find (\<lambda>c. \<not> isWhiteSpace c) (js ''   '') = None"
    by (simp add: js_def isWhiteSpace_def)
  from getAvatarPalette_total [of toUpperCase_ascii "js ''  ada''"]
    getAvatarPalette_total [of toUpperCase_ascii "js ''   ''"]
  show ?thesis
    by (simp add: a b c palette_def)
qed

section \<open>Properties of the pattern matcher\<close>

inductive_simps accepts_Zero [simp]: "accepts Zero w"
inductive_simps accepts_One [simp]: "accepts One w"
inductive_simps accepts_Chr [simp]: "accepts (Chr c) w"
inductive_simps accepts_NotSpace [simp]: "accepts NotSpace w"
inductive_simps accepts_Alt [simp]: "accepts (Alt r s) w"
inductive_simps accepts_Seq: "accepts (Seq r s) w"

lemma nullable_iff: "nullable r \<longleftrightarrow> accepts r []"
  by (induction r) (auto simp: accepts_Seq intro: acc_StarNil)

lemma accepts_Star_Cons:
  "accepts q w \<Longrightarrow> q = Star r \<Longrightarrow> w = a # x \<Longrightarrow>
   \<exists>u v. x = u @ v \<and> accepts r (a # u) \<and> accepts (Star r) v"
proof (induction q w arbitrary: x rule: accepts.induct)
  case (acc_StarStep r' u v)
  show ?case
  proof (cases u)
    case Nil
    with acc_StarStep show ?thesis by simp
  next
    case (Cons b u')
    with acc_StarStep.prems acc_StarStep.hyps have "x = u' @ v \<and> accepts r (a # u') \<and> accepts (Star r) v"
      by simp
    then show ?thesis by blast
  qed
qed simp_all

lemma deriv_iff: "accepts (deriv a r) w \<longleftrightarrow> accepts r (a # w)"
proof (induction r arbitrary: w)
  case (Seq r s)
  have "accepts (Seq r s) (a # w) \<longleftrightarrow>
          (accepts r [] \<and> accepts s (a # w)) \<or>
          (\<exists>u v. w = u @ v \<and> accepts r (a # u) \<and> accepts s v)"
    by (auto simp: accepts_Seq Cons_eq_append_conv)
  with Seq show ?case
    by (auto simp: accepts_Seq nullable_iff)
next
  case (Star r)
  have "accepts (Star r) (a # w) \<longleftrightarrow>
          (\<exists>u v. w = u @ v \<and> accepts r (a # u) \<and> accepts (Star r) v)"
  proof
    assume "accepts (Star r) (a # w)"
    then show "\<exists>u v. w = u @ v \<and> accepts r (a # u) \<and> accepts (Star r) v"
      by (rule accepts_Star_Cons) simp_all
  next
    assume "\<exists>u v. w = u @ v \<and> accepts r (a # u) \<and> accepts (Star r) v"
    then obtain u v where "w = u @ v" "accepts r (a # u)" "accepts (Star r) v"
      by blast
    then show "accepts (Star r) (a # w)"
      using acc_StarStep [of r "a # u" v] by simp
  qed
  with Star show ?case
    by (simp add: accepts_Seq)
qed auto

lemma matches_iff: "matches r w \<longleftrightarrow> accepts r w"
  by (induction w arbitrary: r) (simp_all add: nullable_iff deriv_iff)

lemma accepts_Star_NotSpace:
  "accepts (Star NotSpace) w \<longleftrightarrow> (\<forall>x\<in>set w. \<not> isWhiteSpace x)"
proof
  have "accepts q w \<Longrightarrow> q = Star NotSpace \<Longrightarrow> \<forall>x\<in>set w. \<not> isWhiteSpace x" for q
    by (induction q w rule: accepts.induct) auto
  then show "accepts (Star NotSpace) w \<Longrightarrow> \<forall>x\<in>set w. \<not> isWhiteSpace x"
    by simp
next
  show "\<forall>x\<in>set w. \<not> isWhiteSpace x \<Longrightarrow> accepts (Star NotSpace) w"
  proof (induction w)
    case Nil
    show ?case by (rule acc_StarNil)
  next
    case (Cons a w)
    then have "accepts NotSpace [a]" "accepts (Star NotSpace) w"
      by simp_all
    then have "accepts (Star NotSpace) ([a] @ w)"
      by (rule acc_StarStep)
    then show ?case by simp
  qed
qed

lemma accepts_Plus_NotSpace:
  "accepts (Plus_rx NotSpace) w \<longleftrightarrow> w \<noteq> [] \<and> (\<forall>x\<in>set w. \<not> isWhiteSpace x)"
proof (cases w)
  case Nil
  then show ?thesis
    by (simp add: Plus_rx_def accepts_Seq)
next
  case (Cons a l)
  have "accepts (Seq NotSpace (Star NotSpace)) (a # l) \<longleftrightarrow>
          \<not> isWhiteSpace a \<and> (\<forall>x\<in>set l. \<not> isWhiteSpace x)"
  proof
    assume "accepts (Seq NotSpace (Star NotSpace)) (a # l)"
    then show "\<not> isWhiteSpace a \<and> (\<forall>x\<in>set l. \<not> isWhiteSpace x)"
      by (auto simp: accepts_Seq accepts_Star_NotSpace)
  next
    assume "\<not> isWhiteSpace a \<and> (\<forall>x\<in>set l. \<not> isWhiteSpace x)"
    then have "accepts NotSpace [a]" "accepts (Star NotSpace) l"
      by (simp_all add: accepts_Star_NotSpace)
    then have "accepts (Seq NotSpace (Star NotSpace)) ([a] @ l)"
      by (rule acc_Seq)
    then show "accepts (Seq NotSpace (Star NotSpace)) (a # l)"
      by simp
  qed
  with Cons show ?thesis
    by (simp add: Plus_rx_def)
qed

lemma test_emailPattern_iff:
  "test emailPattern s \<longleftrightarrow>
     (\<exists>a b c. s = a @ 0x40 # b @ 0x2E # c \<and> a \<noteq> [] \<and> b \<noteq> [] \<and> c \<noteq> [] \<and>
        (\<forall>x \<in> set a \<union> set b \<union> set c. \<not> isWhiteSpace x))"
proof -
  have "accepts emailPattern s \<longleftrightarrow>
     (\<exists>a r1. s = a @ r1 \<and> accepts (Plus_rx NotSpace) a \<and>
        (\<exists>r2. r1 = 0x40 # r2 \<and>
           (\<exists>b r3. r2 = b @ r3 \<and> accepts (Plus_rx NotSpace) b \<and>
              (\<exists>c. r3 = 0x2E # c \<and> accepts (Plus_rx NotSpace) c))))"
    unfolding emailPattern_def
    by (subst accepts_Seq, subst accepts_Seq, subst accepts_Seq, subst accepts_Seq) auto
  then show ?thesis
    unfolding test_def matches_iff accepts_Plus_NotSpace by blast
qed

section \<open>Validation of the create form: claims\<close>

text \<open>
  C10: \<open>validate\<close> returns \<open>null\<close> exactly when the trimmed name is empty, the
  trimmed phone is empty, or the trimmed e-mail is non-empty and does not match
  \<open>/^\S+@\S+\.\S+$/\<close>; otherwise it returns the payload of the trimmed name, e-mail
  and phone. The keys of the errors it sets are those of the conditions that hold, and
  an e-mail that is empty once trimmed is accepted.
\<close>

theorem validate_rejects_iff:
  "snd (validate form) =
     (if trim (name form) = [] \<or> trim (phone form) = [] \<or>
         (trim (email form) \<noteq> [] \<and> \<not> test emailPattern (trim (email form)))
      then None
      else Some \<lparr>name = trim (name form), email = trim (email form),
                  phone = trim (phone form)\<rparr>) \<and>
   map fst (fst (validate form)) =
     (if trim (name form) = [] then [Name] else []) @
     (if trim (email form) \<noteq> [] \<and> \<not> test emailPattern (trim (email form))
      then [Email] else []) @
     (if trim (phone form) = [] then [Phone] else []) \<and>
   (trim (name form) \<noteq> [] \<and> trim (phone form) \<noteq> [] \<and> trim (email form) = [] \<longrightarrow>
      snd (validate form) =
        Some \<lparr>name = trim (name form), email = [], phone = trim (phone form)\<rparr>)"
  by (simp add: validate_def Let_def)

theorem validate_rejects_iff_witness:
  "trim (js '' Ada '') \<noteq> [] \<and> trim (js '' 555-0100 '') \<noteq> [] \<and> trim (js '' '') = [] \<and>
   snd (validate \<lparr>name = js '' Ada '', email = js '' '', phone = js '' 555-0100 ''\<rparr>) =
     Some \<lparr>name = js ''Ada'', email = [], phone = js ''555-0100''\<rparr> \<and>
   snd (validate \<lparr>name = js ''Ada'', email = js ''ada@example'', phone = js ''  ''\<rparr>) = None \<and>
   map fst (fst (validate \<lparr>name = js ''Ada'', email = js ''ada@example'', phone = js ''  ''\<rparr>))
     = [Email, Phone]"
proof -
  have n: "trim (js '' Ada '') = js ''Ada''"
    by (simp add: trim_def js_def isWhiteSpace_def)
  have p: "trim (js '' 555-0100 '') = js ''555-0100''"
    by (simp add: trim_def js_def isWhiteSpace_def)
  have e: "trim (js '' '') = []"
    by (simp add: trim_def js_def isWhiteSpace_def)
  have n0: "js ''Ada'' \<noteq> []" "js ''555-0100'' \<noteq> []"
    by (simp_all add: js_def)
  have a: "snd (validate \<lparr>name = js '' Ada '', email = js '' '', phone = js '' 555-0100 ''\<rparr>) =
     Some \<lparr>name = js ''Ada'', email = [], phone = js ''555-0100''\<rparr>"
    using validate_rejects_iff [of "\<lparr>name = js '' Ada '', email = js '' '', phone = js '' 555-0100 ''\<rparr>"]
    by (simp add: n p e n0)
  have n2: "trim (js ''Ada'') = js ''Ada''"
    by (simp add: trim_def js_def isWhiteSpace_def)
  have p2: "trim (js ''  '') = []"
    by (simp add: trim_def js_def isWhiteSpace_def)
  have e2: "trim (js ''ada@example'') = js ''ada@example''"
    by (simp add: trim_def js_def isWhiteSpace_def)
  have e3: "js ''ada@example'' \<noteq> []" "\<not> test emailPattern (js ''ada@example'')"
    by (simp_all add: js_def test_def emailPattern_def Plus_rx_def isWhiteSpace_def)
  have b: "snd (validate \<lparr>name = js ''Ada'', email = js ''ada@example'', phone = js ''  ''\<rparr>) = None \<and>
     map fst (fst (validate \<lparr>name = js ''Ada'', email = js ''ada@example'', phone = js ''  ''\<rparr>))
       = [Email, Phone]"
    using validate_rejects_iff [of "\<lparr>name = js ''Ada'', email = js ''ada@example'', phone = js ''  ''\<rparr>"]
    by (simp add: n2 p2 e2 e3 n0)
  from a b n p e n0 show ?thesis
    by simp
qed

end
